theory Spec2Isabelle
  imports Complex_Main
begin

section \<open>The proctoring monitor of \<open>ProctoringCamera\<close>\<close>

text \<open>
  The component keeps two pieces of mutable state that the warnings go through: the React
  state \<open>warning\<close> (written by \<open>setWarning\<close>) and the closure variable
  \<open>lastWarningTime\<close>. Around them the effect body owns the closure variable
  \<open>camera\<close>, the media stream it asked the platform for, and four listeners registered
  on \<open>document\<close>, \<open>window\<close> and \<open>navigator.mediaDevices\<close>.

  The repository holds two copies of the component. They share \<open>showWarning\<close>, the
  result callback, the frame callback, the four handlers and the cleanup function word for
  word, and differ in how the camera is started: one creates the \<open>Camera\<close> in the
  effect body and attaches a \<open>.catch\<close> callback to \<open>camera.start()\<close>, the other
  starts it from the \<open>async\<close> function \<open>initCamera\<close>. The start modelled here is
  \<open>initCamera\<close>; the rejection handler is the same call in both.

  Everything the code reads from its environment is a parameter of the function that reads
  it: the value of \<open>Date.now()\<close>, the video element's \<open>readyState\<close> and
  \<open>videoWidth\<close>, \<open>document.hidden\<close>, \<open>document.fullscreenElement\<close>, and the
  outcome of the platform's promises. Times are milliseconds, as integers.

  A coordinate of a bounding box is a finite double, read as the real number it is. The
  source compares it with the doubles its literals \<open>0.3\<close>, \<open>0.7\<close> and
  \<open>0.75\<close> denote, which are not the decimal fractions: the comparisons below are
  with those doubles, exactly.
\<close>

subsection \<open>Data\<close>

datatype kind =
  NoFace | MultipleFaces | OffScreen | LookingDown | CameraBlocked
  | TabSwitch | WindowBlur | FullscreenExit | DeviceChange | PermissionDenied

text \<open>The warning sign and variation selector every message starts with, as UTF-8 bytes.\<close>

definition warn_sign :: string where
  "warn_sign = [CHR 0xE2, CHR 0x9A, CHR 0xA0, CHR 0xEF, CHR 0xB8, CHR 0x8F, CHR '' '']"

text \<open>The string literal each call site of \<open>showWarning\<close> passes.\<close>

fun message :: "kind \<Rightarrow> string" where
  "message NoFace = warn_sign @ ''Face not detected! Stay in front of camera''"
| "message MultipleFaces = warn_sign @ ''Multiple faces detected!''"
| "message OffScreen = warn_sign @ ''Please look at the screen!''"
| "message LookingDown = warn_sign @ ''Don'' @ [CHR 0x27] @ ''t look down! Possible phone usage''"
| "message CameraBlocked = warn_sign @ ''Camera turned off or blocked!''"
| "message TabSwitch = warn_sign @ ''Tab switch detected!''"
| "message WindowBlur = warn_sign @ ''Window changed or minimized!''"
| "message FullscreenExit = warn_sign @ ''Fullscreen exited!''"
| "message DeviceChange = warn_sign @ ''Camera/Microphone device changed!''"
| "message PermissionDenied = warn_sign @ ''Camera permission denied!''"

record bounding_box =
  xCenter :: real
  yCenter :: real

record detection =
  boundingBox :: bounding_box

text \<open>\<open>results.detections\<close> may be absent: the callback tests \<open>!results.detections\<close>.\<close>

record results =
  detections :: "detection list option"

text \<open>The listeners, named by the event type they are registered for.\<close>

datatype listener = Visibilitychange | Blur | Fullscreenchange | Devicechange

text \<open>
  The media stream \<open>initCamera\<close> asks \<open>getUserMedia\<close> for and holds in its local
  \<open>stream\<close>: no line of the source stops its tracks, so once live it stays live.
\<close>

datatype media = NotRequested | Pending | Live | Refused

text \<open>
  The \<open>Camera\<close> object. \<open>camera.start()\<close> acquires a stream of the camera's own and
  begins to deliver frames; \<open>camera.stop()\<close> stops that stream. The camera asks for the
  next frame when the promise \<open>onFrame\<close> returned is fulfilled, so the delivery ends
  (\<open>Stalled\<close>) when that promise is rejected.
\<close>

datatype cam = Created | Started | Stalled | Rejected | Stopped

record monitor =
  warning :: "string option"
  lastWarningTime :: int
  camera :: "cam option"
  media :: media
  videoRef :: bool
  mounted :: bool
  listeners :: "listener list"
  inflight :: nat

text \<open>
  The state a freshly rendered component starts the effect with: \<open>useState(null)\<close>,
  \<open>let camera = null\<close>, \<open>let lastWarningTime = 0\<close>, the component mounted and the
  \<open>video\<close> element attached to \<open>videoRef\<close>.
\<close>

definition initial :: monitor where
  "initial = \<lparr>warning = None, lastWarningTime = 0, camera = None, media = NotRequested,
              videoRef = True, mounted = True, listeners = [], inflight = 0\<rparr>"

text \<open>The doubles the literals of the source denote; \<open>0.75\<close> is exact.\<close>

definition lit_0_3 :: real where
  "lit_0_3 = 5404319552844595 / 18014398509481984"

definition lit_0_7 :: real where
  "lit_0_7 = 3152519739159347 / 4503599627370496"

definition lit_0_75 :: real where
  "lit_0_75 = 3 / 4"

text \<open>The doubles the literals \<open>0.2\<close> and \<open>0.8\<close> denote, as coordinates to try.\<close>

definition lit_0_2 :: real where
  "lit_0_2 = 3602879701896397 / 18014398509481984"

definition lit_0_8 :: real where
  "lit_0_8 = 3602879701896397 / 4503599627370496"

subsection \<open>The throttled sink\<close>

text \<open>
  \<open>showWarning(msg)\<close>, with \<open>now\<close> the value \<open>Date.now()\<close> returns in this call.
  The write to \<open>warning\<close> is the call \<open>setWarning(msg)\<close>; what React does with
  that call once the component is unmounted is part of \<open>step\<close> below.
\<close>

definition showWarning :: "int \<Rightarrow> string \<Rightarrow> monitor \<Rightarrow> monitor" where
  "showWarning now msg s =
     (if now - lastWarningTime s > 3000
      then s\<lparr>warning := Some msg, lastWarningTime := now\<rparr>
      else s)"

text \<open>A sequence of calls of \<open>showWarning\<close>, each with its clock reading, in order.\<close>

fun showWarnings :: "(int \<times> string) list \<Rightarrow> monitor \<Rightarrow> monitor" where
  "showWarnings [] s = s"
| "showWarnings ((now, msg) # calls) s = showWarnings calls (showWarning now msg s)"

subsection \<open>The result callback of the face detector\<close>

text \<open>
  \<open>faceDetector.onResults(...)\<close>. The first call of \<open>showWarning\<close> the callback makes
  reads the clock as \<open>t1\<close>, a second one as \<open>t2\<close>. The first two branches return
  after their call; the two position checks are two \<open>if\<close> statements, one after the
  other, and neither returns.
\<close>

definition onResults :: "int \<Rightarrow> int \<Rightarrow> results \<Rightarrow> monitor \<Rightarrow> monitor" where
  "onResults t1 t2 res s =
     (case detections res of
        None \<Rightarrow> showWarning t1 (message NoFace) s
      | Some ds \<Rightarrow>
          if length ds = 0 then showWarning t1 (message NoFace) s
          else if length ds > 1 then showWarning t1 (message MultipleFaces) s
          else
            let box = boundingBox (ds ! 0);
                centerX = xCenter box;
                centerY = yCenter box;
                away = (centerX < lit_0_3 \<or> centerX > lit_0_7 \<or> centerY < lit_0_3);
                s1 = (if away then showWarning t1 (message OffScreen) s else s)
            in if centerY > lit_0_75
               then showWarning (if away then t2 else t1) (message LookingDown) s1
               else s1)"

text \<open>
  The same callback read as the classifier of the detection list: the signals it hands to
  \<open>showWarning\<close>, in the order of the calls.
\<close>

definition classify :: "results \<Rightarrow> kind list" where
  "classify res =
     (case detections res of
        None \<Rightarrow> [NoFace]
      | Some ds \<Rightarrow>
          if length ds = 0 then [NoFace]
          else if length ds > 1 then [MultipleFaces]
          else
            let box = boundingBox (ds ! 0);
                centerX = xCenter box;
                centerY = yCenter box
            in (if centerX < lit_0_3 \<or> centerX > lit_0_7 \<or> centerY < lit_0_3
                then [OffScreen] else [])
               @ (if centerY > lit_0_75 then [LookingDown] else []))"

text \<open>A frame result with the given centres, one detection per pair.\<close>

definition faces :: "(real \<times> real) list \<Rightarrow> results" where
  "faces cs = \<lparr>detections =
     Some (map (\<lambda>(x, y). \<lparr>boundingBox = \<lparr>xCenter = x, yCenter = y\<rparr>\<rparr>) cs)\<rparr>"

subsection \<open>The frame callback of the camera\<close>

text \<open>
  \<open>onFrame\<close>, called by the \<open>Camera\<close> object for each frame it delivers, with the
  \<open>readyState\<close> and \<open>videoWidth\<close> the video element has at that moment (both
  unsigned in the DOM). \<open>faceDetector.send\<close> starts one inference, whose result the
  detector hands to \<open>onResults\<close> later; \<open>inflight\<close> counts the inferences started
  and not yet answered.
\<close>

definition faceDetector_send :: "monitor \<Rightarrow> monitor" where
  "faceDetector_send s = s\<lparr>inflight := inflight s + 1\<rparr>"

definition onFrame :: "int \<Rightarrow> nat \<Rightarrow> nat \<Rightarrow> monitor \<Rightarrow> monitor" where
  "onFrame now readyState videoWidth s =
     (if videoRef s then
        if readyState < 2 \<or> videoWidth = 0
        then showWarning now (message CameraBlocked) s
        else faceDetector_send s
      else s)"

subsection \<open>The lifecycle listeners\<close>

definition handleVisibilityChange :: "int \<Rightarrow> bool \<Rightarrow> monitor \<Rightarrow> monitor" where
  "handleVisibilityChange now hidden s =
     (if hidden then showWarning now (message TabSwitch) s else s)"

definition handleBlur :: "int \<Rightarrow> monitor \<Rightarrow> monitor" where
  "handleBlur now s = showWarning now (message WindowBlur) s"

definition handleFullscreenChange :: "int \<Rightarrow> bool \<Rightarrow> monitor \<Rightarrow> monitor" where
  "handleFullscreenChange now fullscreenElement s =
     (if \<not> fullscreenElement then showWarning now (message FullscreenExit) s else s)"

definition handleDeviceChange :: "int \<Rightarrow> monitor \<Rightarrow> monitor" where
  "handleDeviceChange now s = showWarning now (message DeviceChange) s"

text \<open>
  The platform's registry: \<open>addEventListener\<close> does not add a listener that is already
  there, \<open>removeEventListener\<close> takes it out.
\<close>

definition addEventListener :: "listener \<Rightarrow> monitor \<Rightarrow> monitor" where
  "addEventListener l s =
     (if l \<in> set (listeners s) then s else s\<lparr>listeners := listeners s @ [l]\<rparr>)"

definition removeEventListener :: "listener \<Rightarrow> monitor \<Rightarrow> monitor" where
  "removeEventListener l s = s\<lparr>listeners := removeAll l (listeners s)\<rparr>"

text \<open>
  A platform event, with what its handler reads: \<open>document.hidden\<close> for a visibility
  change, whether \<open>document.fullscreenElement\<close> is set for a fullscreen change. The
  platform calls the handler only while it is registered.
\<close>

datatype dom_event = VisibilityChanged bool | Blurred | FullscreenChanged bool | DevicesChanged

fun event_type :: "dom_event \<Rightarrow> listener" where
  "event_type (VisibilityChanged hidden) = Visibilitychange"
| "event_type Blurred = Blur"
| "event_type (FullscreenChanged fullscreenElement) = Fullscreenchange"
| "event_type DevicesChanged = Devicechange"

fun handler :: "dom_event \<Rightarrow> int \<Rightarrow> monitor \<Rightarrow> monitor" where
  "handler (VisibilityChanged hidden) now s = handleVisibilityChange now hidden s"
| "handler Blurred now s = handleBlur now s"
| "handler (FullscreenChanged fullscreenElement) now s =
     handleFullscreenChange now fullscreenElement s"
| "handler DevicesChanged now s = handleDeviceChange now s"

definition fire :: "dom_event \<Rightarrow> int \<Rightarrow> monitor \<Rightarrow> monitor" where
  "fire e now s = (if event_type e \<in> set (listeners s) then handler e now s else s)"

subsection \<open>Starting the camera\<close>

text \<open>
  \<open>initCamera\<close> is an \<open>async\<close> function with two \<open>await\<close>s inside one \<open>try\<close>; each
  part between two suspension points is one function here.
  \<^item> \<open>initCamera_request\<close>: the call \<open>getUserMedia({video: true})\<close>, up to the first
    \<open>await\<close>.
  \<^item> \<open>initCamera_granted\<close>: the promise resolves with a stream, whose tracks are open
    from then on; if \<open>videoRef.current\<close> is set the stream is attached and the
    \<open>Camera\<close> created, up to \<open>await camera.start()\<close>.
  \<^item> \<open>initCamera_started\<close>: \<open>camera.start()\<close> resolves and frames are delivered.
  \<^item> \<open>initCamera_catch\<close>: the body of the \<open>catch\<close> block.
\<close>

definition initCamera_request :: "monitor \<Rightarrow> monitor" where
  "initCamera_request s = s\<lparr>media := Pending\<rparr>"

definition initCamera_granted :: "monitor \<Rightarrow> monitor" where
  "initCamera_granted s =
     (let s1 = s\<lparr>media := Live\<rparr>
      in if videoRef s1 then s1\<lparr>camera := Some Created\<rparr> else s1)"

definition initCamera_started :: "monitor \<Rightarrow> monitor" where
  "initCamera_started s = s\<lparr>camera := Some Started\<rparr>"

definition initCamera_catch :: "int \<Rightarrow> monitor \<Rightarrow> monitor" where
  "initCamera_catch now s = showWarning now (message PermissionDenied) s"

text \<open>
  A rejected promise throws at its \<open>await\<close>. The exception carries the reading the clock
  gives when it is handled. A function that resumes after an \<open>await\<close> returns \<open>Inl\<close>
  with the exception that leaves it, or \<open>Inr\<close> with the state it reaches.
  \<^item> \<open>awaited out rest\<close>: the promise settles as \<open>out\<close> (\<open>None\<close> for fulfilled);
    fulfilled, the code \<open>rest\<close> after the \<open>await\<close> runs; rejected, the exception is
    thrown there.
  \<^item> \<open>catch_block s\<close>: the \<open>catch\<close> around it, entered with the state \<open>s\<close> the
    \<open>try\<close> was resumed in (nothing is written between the resumption and the throw).
\<close>

datatype exn = NotAllowed int

fun awaited :: "exn option \<Rightarrow> (monitor \<Rightarrow> monitor) \<Rightarrow> monitor \<Rightarrow> exn + monitor" where
  "awaited None rest s = Inr (rest s)"
| "awaited (Some e) rest s = Inl e"

fun catch_block :: "monitor \<Rightarrow> exn + monitor \<Rightarrow> exn + monitor" where
  "catch_block s (Inr s') = Inr s'"
| "catch_block s (Inl (NotAllowed now)) = Inr (initCamera_catch now s)"

text \<open>
  \<open>initCamera\<close> resumed when the permission request settles, and when
  \<open>camera.start()\<close> settles. The second is also \<open>camera.start().catch(...)\<close> of the
  copy that starts the camera in the effect body: its callback is the same call of
  \<open>showWarning\<close>, and nothing follows a fulfilled start.
\<close>

definition initCamera_permission :: "exn option \<Rightarrow> monitor \<Rightarrow> exn + monitor" where
  "initCamera_permission out s = catch_block s (awaited out initCamera_granted s)"

definition initCamera_start :: "exn option \<Rightarrow> monitor \<Rightarrow> exn + monitor" where
  "initCamera_start out s = catch_block s (awaited out initCamera_started s)"

text \<open>
  The state after a resumption: an exception that leaves the function is an unhandled
  rejection and writes nothing.
\<close>

fun landed :: "monitor \<Rightarrow> exn + monitor \<Rightarrow> monitor" where
  "landed s (Inr s') = s'"
| "landed s (Inl e) = s"

text \<open>
  The effect body, up to the \<open>return\<close> of the cleanup function: \<open>mount\<close> for the copy
  with \<open>initCamera\<close>, \<open>mount_direct\<close> for the copy that creates the \<open>Camera\<close>
  under \<open>if (videoRef.current)\<close> and calls \<open>camera.start()\<close> itself.
\<close>

definition mount :: "monitor \<Rightarrow> monitor" where
  "mount s =
     addEventListener Devicechange
       (addEventListener Fullscreenchange
         (addEventListener Blur
           (addEventListener Visibilitychange
             (initCamera_request s))))"

definition mount_direct :: "monitor \<Rightarrow> monitor" where
  "mount_direct s =
     addEventListener Devicechange
       (addEventListener Fullscreenchange
         (addEventListener Blur
           (addEventListener Visibilitychange
             (if videoRef s then s\<lparr>camera := Some Created\<rparr> else s))))"

subsection \<open>Teardown\<close>

text \<open>
  The cleanup function is five calls in a row, the last under \<open>if (camera)\<close>, with no
  \<open>try\<close> around any of them: a call that throws ends the function there. The result
  is the state, the calls that returned, and the call that threw, if one did. Which calls
  of the platform throw is a parameter.
\<close>

datatype release =
  RemoveVisibilitychange | RemoveBlur | RemoveFullscreenchange | RemoveDevicechange
  | CameraStop

type_synonym teardown = "monitor \<times> release list \<times> release option"

fun attempt :: "(release \<Rightarrow> bool) \<Rightarrow> release \<Rightarrow> (monitor \<Rightarrow> monitor) \<Rightarrow> teardown \<Rightarrow> teardown" where
  "attempt throws r f (s, calls, Some e) = (s, calls, Some e)"
| "attempt throws r f (s, calls, None) =
     (if throws r then (s, calls, Some r) else (f s, calls @ [r], None))"

text \<open>
  \<open>camera.stop()\<close> stops the camera and the stream the camera acquired. It does not
  reach the stream \<open>initCamera\<close> asked for.
\<close>

definition camera_stop :: "monitor \<Rightarrow> monitor" where
  "camera_stop s = s\<lparr>camera := Some Stopped\<rparr>"

definition cleanup :: "(release \<Rightarrow> bool) \<Rightarrow> monitor \<Rightarrow> teardown" where
  "cleanup throws s =
     (let r1 = attempt throws RemoveVisibilitychange (removeEventListener Visibilitychange)
                 (s, [], None);
          r2 = attempt throws RemoveBlur (removeEventListener Blur) r1;
          r3 = attempt throws RemoveFullscreenchange (removeEventListener Fullscreenchange) r2;
          r4 = attempt throws RemoveDevicechange (removeEventListener Devicechange) r3
      in if camera (fst r4) \<noteq> None then attempt throws CameraStop camera_stop r4 else r4)"

text \<open>No call of the platform throws.\<close>

definition quiet :: "release \<Rightarrow> bool" where
  "quiet r = False"

subsection \<open>Executions\<close>

text \<open>
  What can happen to a component, one event of the host's single event loop at a time.
  \<open>Mount\<close> and \<open>MountDirect\<close> run the effect body of one copy or the other.
  Unmounting is two events: React removes the component, which clears
  \<open>videoRef.current\<close> (\<open>Detach\<close>), and later runs the cleanup function the effect
  returned (\<open>Cleanup\<close>, here with no platform call throwing); the effect has no
  dependencies, so the cleanup runs at no other time. An event that cannot occur in the
  state it meets leaves the state as it is: a second answer to a request, a result with no
  inference in flight, a frame from a camera that is not running or that still waits for
  the promise of the frame before.
\<close>

datatype event =
    Mount
  | MountDirect
  | Grant
  | Deny int
  | StartOk
  | StartFail int
  | Frame int nat nat
  | Results int int results
  | InferenceFailed
  | Dom dom_event int
  | Detach
  | Cleanup

text \<open>What the code of the component does at an event.\<close>

fun act :: "event \<Rightarrow> monitor \<Rightarrow> monitor" where
  "act Mount s = (if media s = NotRequested \<and> camera s = None then mount s else s)"
| "act MountDirect s =
     (if media s = NotRequested \<and> camera s = None then mount_direct s else s)"
| "act Grant s =
     (if media s = Pending then landed s (initCamera_permission None s) else s)"
| "act (Deny now) s =
     (if media s = Pending
      then landed (s\<lparr>media := Refused\<rparr>)
             (initCamera_permission (Some (NotAllowed now)) (s\<lparr>media := Refused\<rparr>))
      else s)"
| "act StartOk s =
     (if camera s = Some Created then landed s (initCamera_start None s) else s)"
| "act (StartFail now) s =
     (if camera s = Some Created
      then landed (s\<lparr>camera := Some Rejected\<rparr>)
             (initCamera_start (Some (NotAllowed now)) (s\<lparr>camera := Some Rejected\<rparr>))
      else s)"
| "act (Frame now readyState videoWidth) s =
     (if camera s = Some Started \<and> inflight s = 0
      then onFrame now readyState videoWidth s else s)"
| "act (Results t1 t2 res) s =
     (if inflight s > 0 then onResults t1 t2 res (s\<lparr>inflight := inflight s - 1\<rparr>) else s)"
| "act InferenceFailed s =
     (if inflight s > 0
      then s\<lparr>inflight := inflight s - 1,
             camera := (if camera s = Some Started then Some Stalled else camera s)\<rparr>
      else s)"
| "act (Dom e now) s = fire e now s"
| "act Detach s = s\<lparr>videoRef := False, mounted := False\<rparr>"
| "act Cleanup s = fst (cleanup quiet s)"

text \<open>
  React keeps a state update only of a mounted component: a call of \<open>setWarning\<close> made
  after the component was removed changes nothing. Everything else the code wrote
  stays written.
\<close>

definition step :: "event \<Rightarrow> monitor \<Rightarrow> monitor" where
  "step e s = (if mounted s then act e s else (act e s)\<lparr>warning := warning s\<rparr>)"

fun run :: "event list \<Rightarrow> monitor \<Rightarrow> monitor" where
  "run [] s = s"
| "run (e # es) s = run es (step e s)"

text \<open>
  The calls the cleanup function is written to make, in the order of the source: the four
  removals, and \<open>camera.stop()\<close> if \<open>camera\<close> is set. \<open>removal l\<close> is the call
  that takes the listener \<open>l\<close> out.
\<close>

fun removal :: "listener \<Rightarrow> release" where
  "removal Visibilitychange = RemoveVisibilitychange"
| "removal Blur = RemoveBlur"
| "removal Fullscreenchange = RemoveFullscreenchange"
| "removal Devicechange = RemoveDevicechange"

definition release_plan :: "monitor \<Rightarrow> release list" where
  "release_plan s =
     [RemoveVisibilitychange, RemoveBlur, RemoveFullscreenchange, RemoveDevicechange]
     @ (if camera s \<noteq> None then [CameraStop] else [])"

text \<open>The call \<open>r0\<close> throws and no other call does.\<close>

definition only :: "release \<Rightarrow> release \<Rightarrow> bool" where
  "only r0 r = (r = r0)"

section \<open>Properties\<close>

lemma onResults_classify:
  "onResults t1 t2 res s =
     showWarnings (zip [t1, t2] (map message (classify res))) s"
  by (simp add: onResults_def classify_def Let_def split: option.split)

subsection \<open>Facts about the sink\<close>

lemma showWarning_accepts:
  "now - lastWarningTime s > 3000 \<Longrightarrow>
     showWarning now msg s = s\<lparr>warning := Some msg, lastWarningTime := now\<rparr>"
  by (simp add: showWarning_def)

lemma showWarning_drops:
  "now - lastWarningTime s \<le> 3000 \<Longrightarrow> showWarning now msg s = s"
  by (simp add: showWarning_def)

lemma showWarnings_all_dropped:
  "\<forall>(t, m) \<in> set calls. t - lastWarningTime s \<le> 3000 \<Longrightarrow> showWarnings calls s = s"
  by (induction calls arbitrary: s) (auto simp: showWarning_drops)

lemma message_eq_iff: "message k = message k' \<longleftrightarrow> k = k'"
  by (cases k; cases k'; simp add: warn_sign_def)

subsection \<open>The throttler's single operation\<close>

text \<open>
  C5. A call of \<open>showWarning\<close> whose clock reading is more than 3000ms after
  \<open>lastWarningTime\<close> overwrites the message with the signal's and sets
  \<open>lastWarningTime\<close> to the reading, and changes nothing else. Any other call leaves the
  whole state as it was, so nothing of the dropped signal is kept: whatever calls follow,
  the run is the one without it.
\<close>

theorem showWarning_accept_or_drop:
  "(now - lastWarningTime s > 3000 \<longrightarrow>
      showWarning now msg s = s\<lparr>warning := Some msg, lastWarningTime := now\<rparr>
      \<and> warning (showWarning now msg s) = Some msg
      \<and> lastWarningTime (showWarning now msg s) = now)
   \<and> (\<not> now - lastWarningTime s > 3000 \<longrightarrow>
      showWarning now msg s = s
      \<and> (\<forall>calls. showWarnings ((now, msg) # calls) s = showWarnings calls s))"
  by (simp add: showWarning_def)

theorem showWarning_accept_or_drop_witness:
  "warning (showWarning 5000 (message TabSwitch) initial) = Some (message TabSwitch)
   \<and> lastWarningTime (showWarning 5000 (message TabSwitch) initial) = 5000
   \<and> showWarning 3000 (message TabSwitch) initial = initial
   \<and> showWarnings [(3000, message TabSwitch), (3001, message WindowBlur)] initial
       = showWarnings [(3001, message WindowBlur)] initial"
  using showWarning_accept_or_drop [of 5000 initial "message TabSwitch"]
        showWarning_accept_or_drop [of 3000 initial "message TabSwitch"]
  by (simp add: initial_def)

subsection \<open>The classifier\<close>

text \<open>
  C6. The callback sends exactly the signal \<open>NoFace\<close> for an empty detection list,
  exactly \<open>MultipleFaces\<close> for a list of more than one detection, wherever the
  detections are, nothing for one detection at (0.5, 0.5), exactly \<open>OffScreen\<close> for one
  at (0.2, 0.5) and exactly \<open>LookingDown\<close> for one at (0.5, 0.8): both as the list of
  signals and as the calls of \<open>showWarning\<close> made on the state.
\<close>

theorem classify_examples:
  "classify (faces []) = [NoFace]
   \<and> onResults t1 t2 (faces []) s = showWarning t1 (message NoFace) s
   \<and> (length cs > 1 \<longrightarrow>
        classify (faces cs) = [MultipleFaces]
        \<and> onResults t1 t2 (faces cs) s = showWarning t1 (message MultipleFaces) s)
   \<and> classify (faces [(0.5, 0.5)]) = []
   \<and> onResults t1 t2 (faces [(0.5, 0.5)]) s = s
   \<and> classify (faces [(0.2, 0.5)]) = [OffScreen]
   \<and> onResults t1 t2 (faces [(0.2, 0.5)]) s = showWarning t1 (message OffScreen) s
   \<and> classify (faces [(0.5, 0.8)]) = [LookingDown]
   \<and> onResults t1 t2 (faces [(0.5, 0.8)]) s = showWarning t1 (message LookingDown) s"
  by (simp add: classify_def onResults_def faces_def Let_def
        lit_0_3_def lit_0_7_def lit_0_75_def del: message.simps)

theorem classify_examples_witness:
  "classify (faces [(0.5, 0.5), (0.1, 0.9)]) = [MultipleFaces]
   \<and> warning (onResults 5000 5001 (faces [(0.5, 0.5), (0.1, 0.9)]) initial)
       = Some (message MultipleFaces)"
  using classify_examples [of 5000 5001 initial "[(0.5, 0.5), (0.1, 0.9)]"]
  by (simp add: showWarning_def initial_def)

text \<open>
  C1, as stated, fails: the two position checks are two separate \<open>if\<close> statements, so
  a detection at (0.2, 0.8) produces two signals, \<open>OffScreen\<close> and then
  \<open>LookingDown\<close>. Only the throttler can drop the second, and it does not always:
  with the last acceptance at 10000 and the two clock readings 13000 and 13001, the first
  call is dropped, the second accepted, and the message shown is the one of
  \<open>LookingDown\<close>.
\<close>

theorem both_checks_fire_counterexample:
  "classify (faces [(lit_0_2, lit_0_8)]) = [OffScreen, LookingDown]
   \<and> length (classify (faces [(lit_0_2, lit_0_8)])) \<noteq> 1
   \<and> warning (onResults 13000 13001 (faces [(lit_0_2, lit_0_8)])
        (initial\<lparr>lastWarningTime := 10000\<rparr>))
       = Some (message LookingDown)"
  by (simp add: classify_def onResults_def faces_def Let_def showWarning_def initial_def
        lit_0_2_def lit_0_8_def lit_0_3_def lit_0_7_def lit_0_75_def del: message.simps)

text \<open>
  C1, amended. For a frame with exactly one detection the \<open>OffScreen\<close> check and the
  \<open>LookingDown\<close> check are evaluated in that fixed order, each on its own, the
  coordinates compared as doubles with the doubles of the literals: the signals are
  \<open>OffScreen\<close> if its condition holds, followed by \<open>LookingDown\<close> if its condition
  holds, and they reach \<open>showWarning\<close> in that order. When both conditions hold, the
  \<open>OffScreen\<close> call is accepted and the second clock reading is at most 3000ms after
  the first, the \<open>LookingDown\<close> call is dropped and the state holds the message of
  \<open>OffScreen\<close>. A centre whose x is the double of \<open>0.3\<close> itself is not off screen.
\<close>

theorem position_checks_in_order:
  "classify (faces [(x, y)]) =
     (if x < lit_0_3 \<or> x > lit_0_7 \<or> y < lit_0_3 then [OffScreen] else [])
     @ (if y > lit_0_75 then [LookingDown] else [])
   \<and> onResults t1 t2 (faces [(x, y)]) s =
       showWarnings (zip [t1, t2] (map message (classify (faces [(x, y)])))) s
   \<and> ((x < lit_0_3 \<or> x > lit_0_7 \<or> y < lit_0_3) \<and> y > lit_0_75
        \<and> t1 - lastWarningTime s > 3000 \<and> t2 - t1 \<le> 3000 \<longrightarrow>
        onResults t1 t2 (faces [(x, y)]) s
          = s\<lparr>warning := Some (message OffScreen), lastWarningTime := t1\<rparr>)
   \<and> classify (faces [(lit_0_3, 1 / 2)]) = []
   \<and> classify (faces [(1 / 2, lit_0_3)]) = []
   \<and> classify (faces [(lit_0_7, lit_0_75)]) = []"
proof -
  have order: "classify (faces [(x, y)]) =
     (if x < lit_0_3 \<or> x > lit_0_7 \<or> y < lit_0_3 then [OffScreen] else [])
     @ (if y > lit_0_75 then [LookingDown] else [])"
    by (simp add: classify_def faces_def Let_def)
  have calls: "onResults t1 t2 (faces [(x, y)]) s =
       showWarnings (zip [t1, t2] (map message (classify (faces [(x, y)])))) s"
    by (rule onResults_classify)
  have masked: "onResults t1 t2 (faces [(x, y)]) s
          = s\<lparr>warning := Some (message OffScreen), lastWarningTime := t1\<rparr>"
    if "x < lit_0_3 \<or> x > lit_0_7 \<or> y < lit_0_3" "y > lit_0_75"
       "t1 - lastWarningTime s > 3000" "t2 - t1 \<le> 3000"
    using that unfolding calls order
    by (simp add: showWarning_def del: message.simps)
  have edge: "classify (faces [(lit_0_3, 1 / 2)]) = []"
    "classify (faces [(1 / 2, lit_0_3)]) = []"
    "classify (faces [(lit_0_7, lit_0_75)]) = []"
    by (simp_all add: classify_def faces_def Let_def lit_0_3_def lit_0_7_def lit_0_75_def)
  from order calls masked edge show ?thesis by blast
qed

theorem position_checks_in_order_witness:
  "onResults 5000 5001 (faces [(lit_0_2, lit_0_8)]) initial
     = initial\<lparr>warning := Some (message OffScreen), lastWarningTime := 5000\<rparr>"
proof -
  have h: "(lit_0_2 < lit_0_3 \<or> lit_0_2 > lit_0_7 \<or> lit_0_8 < lit_0_3) \<and> lit_0_8 > lit_0_75
           \<and> 5000 - lastWarningTime initial > 3000 \<and> (5001::int) - 5000 \<le> 3000"
    by (simp add: initial_def lit_0_2_def lit_0_8_def lit_0_3_def lit_0_7_def lit_0_75_def)
  from position_checks_in_order [of lit_0_2 lit_0_8 5000 5001 initial] h
  show ?thesis by blast
qed

subsection \<open>The throttle window\<close>

text \<open>
  C2, as stated, fails at the boundary: a signal that arrives exactly 3000ms after the last
  acceptance is dropped, so the point from which a new signal is accepted is not reached
  when 3000ms have elapsed.
\<close>

theorem boundary_signal_dropped_counterexample:
  "13000 - lastWarningTime (showWarning 10000 (message NoFace) initial) \<ge> 3000
   \<and> showWarning 13000 (message TabSwitch) (showWarning 10000 (message NoFace) initial)
       = showWarning 10000 (message NoFace) initial
   \<and> warning (showWarning 13000 (message TabSwitch) (showWarning 10000 (message NoFace) initial))
       = Some (message NoFace)"
  by (simp add: showWarning_def initial_def del: message.simps)

text \<open>
  C2, amended. For every sequence of calls whose clock readings all lie in one window of
  3000ms, the state after the sequence is the state before it with the message and time of
  the first accepted call of the sequence (the first whose reading is more than 3000ms
  after the \<open>lastWarningTime\<close> the sequence started with), and the state before it if
  no call is accepted; no later call of the window is shown. A call at most 3000ms after
  the last acceptance is dropped; a call more than 3000ms (> 3000ms) after it is accepted.
\<close>

theorem first_accepted_wins:
  "((\<forall>(t, m) \<in> set calls. a \<le> t \<and> t \<le> a + 3000) \<longrightarrow>
      showWarnings calls s =
        (case find (\<lambda>(t, m). t - lastWarningTime s > 3000) calls of
           None \<Rightarrow> s
         | Some (t, m) \<Rightarrow> s\<lparr>warning := Some m, lastWarningTime := t\<rparr>))
   \<and> (now - lastWarningTime s \<le> 3000 \<longrightarrow> showWarning now msg s = s)
   \<and> (now - lastWarningTime s > 3000 \<longrightarrow>
        warning (showWarning now msg s) = Some msg
        \<and> lastWarningTime (showWarning now msg s) = now)"
proof -
  have window: "showWarnings calls s =
        (case find (\<lambda>(t, m). t - lastWarningTime s > 3000) calls of
           None \<Rightarrow> s
         | Some (t, m) \<Rightarrow> s\<lparr>warning := Some m, lastWarningTime := t\<rparr>)"
    if "\<forall>(t, m) \<in> set calls. a \<le> t \<and> t \<le> a + 3000"
    using that
  proof (induction calls arbitrary: s)
    case Nil
    show ?case by simp
  next
    case (Cons c calls)
    obtain t m where c: "c = (t, m)" by (cases c)
    have inside: "\<forall>(t', m') \<in> set calls. a \<le> t' \<and> t' \<le> a + 3000"
      using Cons.prems by simp
    show ?case
    proof (cases "t - lastWarningTime s > 3000")
      case True
      let ?s' = "s\<lparr>warning := Some m, lastWarningTime := t\<rparr>"
      have "a \<le> t" using Cons.prems c by simp
      then have "\<forall>(t', m') \<in> set calls. t' - lastWarningTime ?s' \<le> 3000"
        using inside by auto
      then have "showWarnings calls ?s' = ?s'"
        by (rule showWarnings_all_dropped)
      then show ?thesis
        using True c by (simp add: showWarning_accepts)
    next
      case False
      then have "showWarning t m s = s"
        by (simp add: showWarning_drops)
      then show ?thesis
        using False c Cons.IH [OF inside, of s] by simp
    qed
  qed
  show ?thesis
    using window by (simp add: showWarning_def)
qed

theorem first_accepted_wins_witness:
  "showWarnings [(10000, message NoFace), (11000, message TabSwitch), (13000, message WindowBlur)]
     initial = initial\<lparr>warning := Some (message NoFace), lastWarningTime := 10000\<rparr>
   \<and> showWarning 13000 (message WindowBlur)
       (initial\<lparr>warning := Some (message NoFace), lastWarningTime := 10000\<rparr>)
      = initial\<lparr>warning := Some (message NoFace), lastWarningTime := 10000\<rparr>
   \<and> warning (showWarning 13001 (message WindowBlur)
       (initial\<lparr>warning := Some (message NoFace), lastWarningTime := 10000\<rparr>))
      = Some (message WindowBlur)"
proof -
  let ?calls = "[(10000::int, message NoFace), (11000, message TabSwitch),
                 (13000, message WindowBlur)]"
  let ?s = "initial\<lparr>warning := Some (message NoFace), lastWarningTime := 10000\<rparr>"
  have h1: "\<forall>(t, m) \<in> set ?calls. 10000 \<le> t \<and> t \<le> 10000 + 3000"
    by simp
  have f: "find (\<lambda>(t, m). t - lastWarningTime initial > 3000) ?calls
             = Some (10000, message NoFace)"
    by (simp add: initial_def)
  have h2: "13000 - lastWarningTime ?s \<le> 3000" "13001 - lastWarningTime ?s > 3000"
    by simp_all
  from first_accepted_wins [of ?calls 10000 initial 13000 "message WindowBlur"] h1 f
  have a: "showWarnings ?calls initial = ?s" by simp
  from first_accepted_wins [of "[]" 0 ?s 13000 "message WindowBlur"] h2
  have b: "showWarning 13000 (message WindowBlur) ?s = ?s" by blast
  from first_accepted_wins [of "[]" 0 ?s 13001 "message WindowBlur"] h2
  have c: "warning (showWarning 13001 (message WindowBlur) ?s) = Some (message WindowBlur)"
    by blast
  from a b c show ?thesis by blast
qed

subsection \<open>Teardown\<close>

lemma removeAll_every_listener:
  "removeAll Devicechange (removeAll Fullscreenchange
     (removeAll Blur (removeAll Visibilitychange ls))) = []"
proof (induction ls)
  case Nil
  show ?case by simp
next
  case (Cons l ls)
  then show ?case by (cases l) simp_all
qed

lemma cleanup_quiet:
  "cleanup quiet s =
     ((if camera s \<noteq> None then camera_stop (s\<lparr>listeners := []\<rparr>) else s\<lparr>listeners := []\<rparr>),
      release_plan s, None)"
  by (simp add: cleanup_def quiet_def removeEventListener_def removeAll_every_listener
        release_plan_def)

lemma step_Cleanup:
  "step Cleanup s = fst (cleanup quiet s)"
  by (simp add: step_def cleanup_quiet camera_stop_def)

lemma step_Cleanup_fields:
  "warning (step Cleanup s) = warning s"
  "lastWarningTime (step Cleanup s) = lastWarningTime s"
  "inflight (step Cleanup s) = inflight s"
  "listeners (step Cleanup s) = []"
  "videoRef (step Cleanup s) = videoRef s"
  "mounted (step Cleanup s) = mounted s"
  "media (step Cleanup s) = media s"
  by (simp_all add: step_Cleanup cleanup_quiet camera_stop_def)

lemma cleanup_cases:
  "cleanup throws s =
     (if throws RemoveVisibilitychange then (s, [], Some RemoveVisibilitychange)
      else if throws RemoveBlur
        then (removeEventListener Visibilitychange s, [RemoveVisibilitychange], Some RemoveBlur)
      else if throws RemoveFullscreenchange
        then (removeEventListener Blur (removeEventListener Visibilitychange s),
              [RemoveVisibilitychange, RemoveBlur], Some RemoveFullscreenchange)
      else if throws RemoveDevicechange
        then (removeEventListener Fullscreenchange
               (removeEventListener Blur (removeEventListener Visibilitychange s)),
              [RemoveVisibilitychange, RemoveBlur, RemoveFullscreenchange],
              Some RemoveDevicechange)
      else if camera s = None
        then (s\<lparr>listeners := []\<rparr>,
              [RemoveVisibilitychange, RemoveBlur, RemoveFullscreenchange, RemoveDevicechange],
              None)
      else if throws CameraStop
        then (s\<lparr>listeners := []\<rparr>,
              [RemoveVisibilitychange, RemoveBlur, RemoveFullscreenchange, RemoveDevicechange],
              Some CameraStop)
      else (camera_stop (s\<lparr>listeners := []\<rparr>),
              [RemoveVisibilitychange, RemoveBlur, RemoveFullscreenchange, RemoveDevicechange,
               CameraStop], None))"
  by (simp add: cleanup_def removeEventListener_def removeAll_every_listener)

lemma step_Dom_unheard:
  "listeners c = [] \<Longrightarrow> step (Dom e now) c = c"
  by (simp add: step_def fire_def)

lemma run_to_first_frame:
  "run [Mount, Grant, StartOk, Frame 10000 4 320, Detach] initial =
     \<lparr>warning = None, lastWarningTime = 0, camera = Some Started, media = Live,
      videoRef = False, mounted = False,
      listeners = [Visibilitychange, Blur, Fullscreenchange, Devicechange], inflight = 1\<rparr>"
  by (simp add: step_def initial_def mount_def initCamera_request_def addEventListener_def
        initCamera_permission_def initCamera_start_def initCamera_granted_def
        initCamera_started_def onFrame_def faceDetector_send_def)

lemma run_to_started:
  "run [Mount, Grant, StartOk] initial =
     \<lparr>warning = None, lastWarningTime = 0, camera = Some Started, media = Live,
      videoRef = True, mounted = True,
      listeners = [Visibilitychange, Blur, Fullscreenchange, Devicechange], inflight = 0\<rparr>"
  by (simp add: step_def initial_def mount_def initCamera_request_def addEventListener_def
        initCamera_permission_def initCamera_start_def initCamera_granted_def
        initCamera_started_def)

lemma run_snoc: "run (es @ [e]) s = step e (run es s)"
  by (induction es arbitrary: s) simp_all

text \<open>
  C3, as stated, fails: the code has no stopped flag, and nothing stands between the
  detector's result callback and \<open>showWarning\<close>. In the execution below a frame is
  sent for inference, the component unmounts and the cleanup runs, and the result arrives
  afterwards: the throttler accepts the \<open>NoFace\<close> signal and overwrites
  \<open>lastWarningTime\<close>. The call of \<open>setWarning\<close> it makes is dropped by React, the
  component being unmounted, so the message stays as it was.
\<close>

theorem late_result_counterexample:
  "lastWarningTime (run [Mount, Grant, StartOk, Frame 10000 4 320, Detach, Cleanup] initial) = 0
   \<and> listeners (run [Mount, Grant, StartOk, Frame 10000 4 320, Detach, Cleanup] initial) = []
   \<and> camera (run [Mount, Grant, StartOk, Frame 10000 4 320, Detach, Cleanup] initial)
       = Some Stopped
   \<and> lastWarningTime (run [Mount, Grant, StartOk, Frame 10000 4 320, Detach, Cleanup,
                    Results 10050 10051 (faces [])] initial) = 10050
   \<and> warning (run [Mount, Grant, StartOk, Frame 10000 4 320, Detach, Cleanup,
                    Results 10050 10051 (faces [])] initial) = None"
proof -
  have a: "run [Mount, Grant, StartOk, Frame 10000 4 320, Detach, Cleanup] initial
      = step Cleanup (run [Mount, Grant, StartOk, Frame 10000 4 320, Detach] initial)"
    using run_snoc [of "[Mount, Grant, StartOk, Frame 10000 4 320, Detach]" Cleanup initial]
    by simp
  have b: "run [Mount, Grant, StartOk, Frame 10000 4 320, Detach, Cleanup,
                    Results 10050 10051 (faces [])] initial
      = step (Results 10050 10051 (faces []))
          (step Cleanup (run [Mount, Grant, StartOk, Frame 10000 4 320, Detach] initial))"
    using run_snoc [of "[Mount, Grant, StartOk, Frame 10000 4 320, Detach, Cleanup]"
        "Results 10050 10051 (faces [])" initial] a
    by simp
  show ?thesis
    unfolding a b run_to_first_frame
    by (simp add: step_def cleanup_quiet camera_stop_def onResults_def faces_def
        showWarning_def del: message.simps)
qed

text \<open>
  C3, amended. After the cleanup has run (no release call throwing) no listener is
  registered, so no lifecycle event reaches \<open>showWarning\<close> and none changes the state;
  the cleanup itself leaves the message and \<open>lastWarningTime\<close> as they were. No
  stopped flag exists: the result of an inference that was in flight is handed to the
  result callback exactly as before the cleanup. When the first signal of the result is
  read more than 3000ms after the last acceptance, and a second no more than 3000ms after
  the first, the throttler accepts the first: \<open>lastWarningTime\<close> becomes its reading,
  while the message, the component being unmounted, stays as it was.
\<close>

theorem after_cleanup:
  "listeners (step Cleanup s) = []
   \<and> step (Dom e now) (step Cleanup s) = step Cleanup s
   \<and> warning (step Cleanup s) = warning s
   \<and> lastWarningTime (step Cleanup s) = lastWarningTime s
   \<and> (inflight (step Cleanup s) > 0 \<longrightarrow>
        act (Results t1 t2 res) (step Cleanup s)
          = onResults t1 t2 res ((step Cleanup s)\<lparr>inflight := inflight (step Cleanup s) - 1\<rparr>))
   \<and> (\<not> mounted s \<and> inflight (step Cleanup s) > 0 \<and> classify res = k # ks
        \<and> t1 - lastWarningTime (step Cleanup s) > 3000 \<and> t2 - t1 \<le> 3000 \<longrightarrow>
        lastWarningTime (step (Results t1 t2 res) (step Cleanup s)) = t1
        \<and> warning (step (Results t1 t2 res) (step Cleanup s)) = warning s)"
proof -
  let ?c = "step Cleanup s"
  have late: "lastWarningTime (step (Results t1 t2 res) ?c) = t1
        \<and> warning (step (Results t1 t2 res) ?c) = warning s"
    if h: "\<not> mounted s" "inflight ?c > 0" "classify res = k # ks"
       "t1 - lastWarningTime ?c > 3000" "t2 - t1 \<le> 3000"
  proof -
    let ?d = "?c\<lparr>inflight := inflight ?c - 1\<rparr>"
    have len: "length ks \<le> 1"
      using h(3) by (auto simp: classify_def Let_def split: option.splits if_splits)
    have first: "showWarning t1 (message k) ?d
                   = ?d\<lparr>warning := Some (message k), lastWarningTime := t1\<rparr>"
      using h(4) by (simp add: showWarning_accepts)
    have "act (Results t1 t2 res) ?c = showWarnings (zip [t1, t2] (map message (k # ks))) ?d"
      using h(2,3) by (simp add: onResults_classify del: message.simps)
    also have "\<dots> = ?d\<lparr>warning := Some (message k), lastWarningTime := t1\<rparr>"
    proof (cases ks)
      case Nil
      then show ?thesis using first by (simp del: message.simps)
    next
      case (Cons k' ks')
      then have "ks' = []" using len by simp
      then show ?thesis
        using Cons first h(5) by (simp add: showWarning_drops del: message.simps)
    qed
    finally have acted: "act (Results t1 t2 res) ?c
                   = ?d\<lparr>warning := Some (message k), lastWarningTime := t1\<rparr>" .
    have "\<not> mounted ?c"
      using h(1) by (simp add: step_Cleanup_fields)
    then have "step (Results t1 t2 res) ?c
                 = (act (Results t1 t2 res) ?c)\<lparr>warning := warning ?c\<rparr>"
      by (simp add: step_def)
    then show ?thesis
      unfolding acted by (simp add: step_Cleanup_fields)
  qed
  have quiet_dom: "step (Dom e now) ?c = ?c"
    using step_Cleanup_fields(4) [of s] by (rule step_Dom_unheard)
  have handed_on: "act (Results t1 t2 res) ?c
                     = onResults t1 t2 res (?c\<lparr>inflight := inflight ?c - 1\<rparr>)"
    if "inflight ?c > 0"
    using that by simp
  from late quiet_dom handed_on step_Cleanup_fields(1,2,4) [of s]
  show ?thesis by blast
qed

theorem after_cleanup_witness:
  "step (Dom Blurred 10060)
     (step Cleanup (run [Mount, Grant, StartOk, Frame 10000 4 320, Detach] initial))
     = step Cleanup (run [Mount, Grant, StartOk, Frame 10000 4 320, Detach] initial)
   \<and> lastWarningTime (step (Results 10050 10051 (faces []))
       (step Cleanup (run [Mount, Grant, StartOk, Frame 10000 4 320, Detach] initial)))
     = 10050
   \<and> warning (step (Results 10050 10051 (faces []))
       (step Cleanup (run [Mount, Grant, StartOk, Frame 10000 4 320, Detach] initial)))
     = None"
proof -
  let ?s = "run [Mount, Grant, StartOk, Frame 10000 4 320, Detach] initial"
  have h: "\<not> mounted ?s \<and> inflight (step Cleanup ?s) > 0 \<and> classify (faces []) = NoFace # []
        \<and> 10050 - lastWarningTime (step Cleanup ?s) > 3000 \<and> (10051::int) - 10050 \<le> 3000"
    unfolding run_to_first_frame
    by (simp add: step_Cleanup_fields classify_def faces_def)
  have w: "warning ?s = None"
    unfolding run_to_first_frame by simp
  from after_cleanup [of ?s Blurred 10060 10050 10051 "faces []" NoFace "[]"] h w
  show ?thesis by metis
qed

text \<open>
  C4, as stated, fails: the release calls are not attempted independently. When the first
  removal throws on a running monitor, the cleanup ends there: no call has returned, all
  four listeners are still registered and the camera still runs.
\<close>

theorem throwing_release_counterexample:
  "listeners (run [Mount, Grant, StartOk] initial)
     = [Visibilitychange, Blur, Fullscreenchange, Devicechange]
   \<and> camera (run [Mount, Grant, StartOk] initial) = Some Started
   \<and> cleanup (only RemoveVisibilitychange) (run [Mount, Grant, StartOk] initial)
     = (run [Mount, Grant, StartOk] initial, [], Some RemoveVisibilitychange)"
  unfolding run_to_started by (simp add: cleanup_cases only_def)

text \<open>
  C4, amended. The cleanup makes its release calls in the fixed order of the source
  (removal of the visibilitychange, blur, fullscreenchange and devicechange listeners,
  then \<open>camera.stop()\<close> if a camera exists), each at most once, up to the first call
  that throws; the calls after it are not attempted. A listener whose removal returned is
  no longer registered; a listener whose removal was not reached is registered exactly if
  it was before; the camera is stopped exactly if \<open>camera.stop()\<close> returned, and is
  as it was otherwise. When no call throws, every planned call is made exactly once and no
  listener remains registered.
\<close>

theorem cleanup_stops_at_first_throw:
  "cleanup throws s = (final, calls, thrown) \<Longrightarrow>
     calls = takeWhile (\<lambda>r. \<not> throws r) (release_plan s)
     \<and> thrown = find throws (release_plan s)
     \<and> distinct calls
     \<and> (\<forall>l. removal l \<in> set calls \<longrightarrow> l \<notin> set (listeners final))
     \<and> (\<forall>l. removal l \<notin> set calls \<longrightarrow> (l \<in> set (listeners final)) = (l \<in> set (listeners s)))
     \<and> (CameraStop \<in> set calls \<longrightarrow> camera final = Some Stopped)
     \<and> (CameraStop \<notin> set calls \<longrightarrow> camera final = camera s)
     \<and> (thrown = None \<longrightarrow> calls = release_plan s \<and> listeners final = [])"
proof -
  assume c: "cleanup throws s = (final, calls, thrown)"
  have 1: "calls = takeWhile (\<lambda>r. \<not> throws r) (release_plan s)"
    using c by (simp add: cleanup_cases release_plan_def split: if_splits)
  have 2: "thrown = find throws (release_plan s)"
    using c by (simp add: cleanup_cases release_plan_def split: if_splits)
  have 3: "distinct calls"
    using c by (auto simp add: cleanup_cases split: if_splits)
  have 4: "removal l \<in> set calls \<longrightarrow> l \<notin> set (listeners final)" for l
    using c by (cases l) (auto simp add: cleanup_cases removeEventListener_def camera_stop_def split: if_splits)
  have 5: "removal l \<notin> set calls \<longrightarrow> (l \<in> set (listeners final)) = (l \<in> set (listeners s))" for l
    using c by (cases l) (auto simp add: cleanup_cases removeEventListener_def camera_stop_def split: if_splits)
  have 6: "CameraStop \<in> set calls \<longrightarrow> camera final = Some Stopped"
    using c by (auto simp add: cleanup_cases removeEventListener_def camera_stop_def split: if_splits)
  have 7: "CameraStop \<notin> set calls \<longrightarrow> camera final = camera s"
    using c by (auto simp add: cleanup_cases removeEventListener_def camera_stop_def split: if_splits)
  have 8: "thrown = None \<longrightarrow> calls = release_plan s \<and> listeners final = []"
    using c by (auto simp add: cleanup_cases release_plan_def camera_stop_def split: if_splits)
  from 1 2 3 4 5 6 7 8 show ?thesis by blast
qed

theorem cleanup_stops_at_first_throw_witness:
  "cleanup (only RemoveFullscreenchange) (run [Mount, Grant, StartOk] initial)
     = ((run [Mount, Grant, StartOk] initial)\<lparr>listeners := [Fullscreenchange, Devicechange]\<rparr>,
        [RemoveVisibilitychange, RemoveBlur], Some RemoveFullscreenchange)
   \<and> camera ((run [Mount, Grant, StartOk] initial)\<lparr>listeners := [Fullscreenchange, Devicechange]\<rparr>)
     = Some Started
   \<and> cleanup quiet (run [Mount, Grant, StartOk] initial)
     = ((run [Mount, Grant, StartOk] initial)\<lparr>camera := Some Stopped, listeners := []\<rparr>,
        [RemoveVisibilitychange, RemoveBlur, RemoveFullscreenchange, RemoveDevicechange,
         CameraStop], None)"
proof -
  let ?s = "run [Mount, Grant, StartOk] initial"
  let ?half = "?s\<lparr>listeners := [Fullscreenchange, Devicechange]\<rparr>"
  let ?gone = "?s\<lparr>camera := Some Stopped, listeners := []\<rparr>"
  have a: "cleanup (only RemoveFullscreenchange) ?s
             = (?half, [RemoveVisibilitychange, RemoveBlur], Some RemoveFullscreenchange)"
    unfolding run_to_started by (simp add: cleanup_cases only_def removeEventListener_def)
  have b: "cleanup quiet ?s
             = (?gone, [RemoveVisibilitychange, RemoveBlur, RemoveFullscreenchange,
                        RemoveDevicechange, CameraStop], None)"
    unfolding run_to_started by (simp add: cleanup_cases quiet_def camera_stop_def)
  from cleanup_stops_at_first_throw [OF a]
  have "CameraStop \<notin> set [RemoveVisibilitychange, RemoveBlur] \<longrightarrow> camera ?half = camera ?s"
    by blast
  then have m: "camera ?half = Some Started"
    unfolding run_to_started by simp
  from cleanup_stops_at_first_throw [OF b]
  have "listeners ?gone = []"
    by blast
  with a b m show ?thesis by blast
qed

subsection \<open>What a refused or late camera leaves behind\<close>

lemma showWarning_other_fields:
  "camera (showWarning now msg s) = camera s"
  "media (showWarning now msg s) = media s"
  "videoRef (showWarning now msg s) = videoRef s"
  "mounted (showWarning now msg s) = mounted s"
  "listeners (showWarning now msg s) = listeners s"
  "inflight (showWarning now msg s) = inflight s"
  by (simp_all add: showWarning_def)


lemma onResults_other_fields:
  "camera (onResults t1 t2 res s) = camera s"
  "media (onResults t1 t2 res s) = media s"
  by (simp_all add: onResults_def Let_def showWarning_other_fields split: option.split
        del: message.simps)




lemma fire_other_fields:
  "camera (fire e now s) = camera s"
  "media (fire e now s) = media s"
  by (cases e; simp add: fire_def handleVisibilityChange_def handleBlur_def
        handleFullscreenChange_def handleDeviceChange_def showWarning_other_fields
        del: message.simps)+


lemma step_other_fields:
  "camera (step e s) = camera (act e s)"
  "media (step e s) = media (act e s)"
  by (simp_all add: step_def)


lemma act_without_camera:
  assumes "media s = Refused \<or> media s = Live" "camera s = None"
  shows "media (act e s) = media s \<and> camera (act e s) = None"
  using assms
  by (cases e) (auto simp add: onResults_other_fields fire_other_fields cleanup_quiet)

lemma step_without_camera:
  assumes "media s = Refused \<or> media s = Live" "camera s = None"
  shows "media (step e s) = media s \<and> camera (step e s) = None"
  using act_without_camera [OF assms] by (simp add: step_other_fields)

lemma run_without_camera:
  "media s = Refused \<or> media s = Live \<Longrightarrow> camera s = None \<Longrightarrow>
     media (run es s) = media s \<and> camera (run es s) = None"
proof (induction es arbitrary: s)
  case Nil
  then show ?case by simp
next
  case (Cons e es)
  from step_without_camera [OF Cons.prems, of e]
  have "media (step e s) = media s" "camera (step e s) = None" by simp_all
  with Cons.IH [of "step e s"] Cons.prems show ?case by auto
qed




lemma step_Deny:
  "media s = Pending \<Longrightarrow> mounted s \<or> now - lastWarningTime s \<le> 3000 \<Longrightarrow>
     step (Deny now) s = showWarning now (message PermissionDenied) (s\<lparr>media := Refused\<rparr>)"
  by (auto simp add: step_def initCamera_permission_def initCamera_catch_def showWarning_def
        simp del: message.simps)

lemma step_StartFail:
  "camera s = Some Created \<Longrightarrow> mounted s \<or> now - lastWarningTime s \<le> 3000 \<Longrightarrow>
     step (StartFail now) s
       = showWarning now (message PermissionDenied) (s\<lparr>camera := Some Rejected\<rparr>)"
  by (auto simp add: step_def initCamera_start_def initCamera_catch_def showWarning_def
        simp del: message.simps)

lemma run_to_blur:
  "run [Mount, Dom Blurred 10000] initial =
     \<lparr>warning = Some (message WindowBlur), lastWarningTime = 10000, camera = None,
      media = Pending, videoRef = True, mounted = True,
      listeners = [Visibilitychange, Blur, Fullscreenchange, Devicechange], inflight = 0\<rparr>"
  by (simp add: step_def initial_def mount_def initCamera_request_def addEventListener_def
        fire_def handleBlur_def showWarning_def del: message.simps)




text \<open>
  C7, as stated, fails. The denial is not always surfaced: refused 1000ms after a window
  blur was accepted, it is dropped and the blur message stays, whether the rejected
  promise is the permission request or \<open>camera.start()\<close>. Where it is surfaced it is
  not persistent, and the monitor has not stopped: the listeners are still registered, and
  a blur 4000ms later replaces the denial message.
\<close>

theorem denial_not_surfaced_counterexample:
  "warning (run [Mount, Dom Blurred 10000, Deny 11000] initial) = Some (message WindowBlur)
   \<and> warning (run [MountDirect, Dom Blurred 10000, StartFail 11000] initial)
       = Some (message WindowBlur)
   \<and> message WindowBlur \<noteq> message PermissionDenied
   \<and> warning (run [Mount, Deny 10000] initial) = Some (message PermissionDenied)
   \<and> warning (run [Mount, Deny 10000, Dom Blurred 14000] initial) = Some (message WindowBlur)
   \<and> listeners (run [Mount, Deny 10000] initial)
       = [Visibilitychange, Blur, Fullscreenchange, Devicechange]"
  by (simp add: step_def initial_def mount_def mount_direct_def initCamera_request_def
        addEventListener_def fire_def handleBlur_def initCamera_permission_def
        initCamera_start_def initCamera_catch_def showWarning_def message_eq_iff
        del: message.simps)

text \<open>
  C7, amended. When camera acquisition is refused, the monitor does not throw: whichever
  promise is rejected, the permission request or \<open>camera.start()\<close>, the rejection is
  caught, no exception leaves the function, and the handler passes the denial message to
  \<open>showWarning\<close>. On a mounted component the message is shown if the clock reading is
  more than 3000ms after the last acceptance, and dropped otherwise, leaving the state as
  it was. Once shown it stays only until the next accepted signal, which replaces it.
  There is no failed state: the listeners stay registered.
\<close>

theorem denial_goes_through_throttle:
  "\<not> isl (initCamera_permission out s) \<and> \<not> isl (initCamera_start out s)
   \<and> initCamera_permission (Some (NotAllowed now)) s
       = Inr (showWarning now (message PermissionDenied) s)
   \<and> initCamera_start (Some (NotAllowed now)) s
       = Inr (showWarning now (message PermissionDenied) s)
   \<and> (mounted s \<and> media s = Pending \<longrightarrow>
        step (Deny now) s = showWarning now (message PermissionDenied) (s\<lparr>media := Refused\<rparr>))
   \<and> (mounted s \<and> camera s = Some Created \<longrightarrow>
        step (StartFail now) s
          = showWarning now (message PermissionDenied) (s\<lparr>camera := Some Rejected\<rparr>))
   \<and> listeners (showWarning now (message PermissionDenied) s) = listeners s
   \<and> (now - lastWarningTime s > 3000 \<longrightarrow>
        warning (showWarning now (message PermissionDenied) s) = Some (message PermissionDenied)
        \<and> lastWarningTime (showWarning now (message PermissionDenied) s) = now)
   \<and> (now - lastWarningTime s \<le> 3000 \<longrightarrow>
        showWarning now (message PermissionDenied) s = s)
   \<and> (now - lastWarningTime s > 3000 \<and> t - now > 3000 \<longrightarrow>
        warning (showWarning t msg (showWarning now (message PermissionDenied) s)) = Some msg)"
proof -
  have caught: "\<not> isl (initCamera_permission out s)" "\<not> isl (initCamera_start out s)"
  proof -
    show "\<not> isl (initCamera_permission out s)"
    proof (cases out)
      case None
      then show ?thesis by (simp add: initCamera_permission_def)
    next
      case (Some e)
      then show ?thesis by (cases e) (simp add: initCamera_permission_def)
    qed
    show "\<not> isl (initCamera_start out s)"
    proof (cases out)
      case None
      then show ?thesis by (simp add: initCamera_start_def)
    next
      case (Some e)
      then show ?thesis by (cases e) (simp add: initCamera_start_def)
    qed
  qed
  have handled: "initCamera_permission (Some (NotAllowed now)) s
       = Inr (showWarning now (message PermissionDenied) s)"
    "initCamera_start (Some (NotAllowed now)) s
       = Inr (showWarning now (message PermissionDenied) s)"
    by (simp_all add: initCamera_permission_def initCamera_start_def initCamera_catch_def)
  have deny: "step (Deny now) s
                = showWarning now (message PermissionDenied) (s\<lparr>media := Refused\<rparr>)"
    if "mounted s \<and> media s = Pending"
    using that by (simp add: step_Deny)
  have start: "step (StartFail now) s
          = showWarning now (message PermissionDenied) (s\<lparr>camera := Some Rejected\<rparr>)"
    if "mounted s \<and> camera s = Some Created"
    using that by (simp add: step_StartFail)
  have throttle: "listeners (showWarning now (message PermissionDenied) s) = listeners s"
    "now - lastWarningTime s > 3000 \<longrightarrow>
        warning (showWarning now (message PermissionDenied) s) = Some (message PermissionDenied)
        \<and> lastWarningTime (showWarning now (message PermissionDenied) s) = now"
    "now - lastWarningTime s \<le> 3000 \<longrightarrow> showWarning now (message PermissionDenied) s = s"
    "now - lastWarningTime s > 3000 \<and> t - now > 3000 \<longrightarrow>
        warning (showWarning t msg (showWarning now (message PermissionDenied) s)) = Some msg"
    by (simp_all add: showWarning_def del: message.simps)
  from caught handled deny start throttle show ?thesis by blast
qed

theorem denial_goes_through_throttle_witness:
  "warning (step (Deny 10000) (step Mount initial)) = Some (message PermissionDenied)
   \<and> warning (showWarning 14000 (message WindowBlur)
        (showWarning 10000 (message PermissionDenied) ((step Mount initial)\<lparr>media := Refused\<rparr>)))
       = Some (message WindowBlur)
   \<and> warning (step (StartFail 10000) (step MountDirect initial))
       = Some (message PermissionDenied)
   \<and> step (Deny 11000) (run [Mount, Dom Blurred 10000] initial)
       = (run [Mount, Dom Blurred 10000] initial)\<lparr>media := Refused\<rparr>"
proof -
  let ?m = "step Mount initial"
  let ?a = "step MountDirect initial"
  let ?b = "run [Mount, Dom Blurred 10000] initial"
  have m: "?m = \<lparr>warning = None, lastWarningTime = 0, camera = None,
      media = Pending, videoRef = True, mounted = True,
      listeners = [Visibilitychange, Blur, Fullscreenchange, Devicechange], inflight = 0\<rparr>"
    by (simp add: step_def initial_def mount_def initCamera_request_def addEventListener_def)
  have a: "?a = \<lparr>warning = None, lastWarningTime = 0, camera = Some Created,
      media = NotRequested, videoRef = True, mounted = True,
      listeners = [Visibilitychange, Blur, Fullscreenchange, Devicechange], inflight = 0\<rparr>"
    by (simp add: step_def initial_def mount_direct_def addEventListener_def)
  have h1: "mounted ?m \<and> media ?m = Pending"
    "10000 - lastWarningTime (?m\<lparr>media := Refused\<rparr>) > 3000 \<and> (14000::int) - 10000 > 3000"
    unfolding m by simp_all
  from denial_goes_through_throttle [of None ?m 10000] h1(1)
  have d1: "step (Deny 10000) ?m
              = showWarning 10000 (message PermissionDenied) (?m\<lparr>media := Refused\<rparr>)"
    by blast
  from denial_goes_through_throttle
         [of None "?m\<lparr>media := Refused\<rparr>" 10000 14000 "message WindowBlur"] h1(2)
  have shown: "warning (showWarning 10000 (message PermissionDenied) (?m\<lparr>media := Refused\<rparr>))
                 = Some (message PermissionDenied)"
    and replaced: "warning (showWarning 14000 (message WindowBlur)
        (showWarning 10000 (message PermissionDenied) (?m\<lparr>media := Refused\<rparr>)))
       = Some (message WindowBlur)"
    by blast+
  have h2: "mounted ?a \<and> camera ?a = Some Created"
    "10000 - lastWarningTime (?a\<lparr>camera := Some Rejected\<rparr>) > 3000"
    unfolding a by simp_all
  from denial_goes_through_throttle [of None ?a 10000] h2(1)
  have d2: "step (StartFail 10000) ?a
              = showWarning 10000 (message PermissionDenied) (?a\<lparr>camera := Some Rejected\<rparr>)"
    by blast
  from denial_goes_through_throttle [of None "?a\<lparr>camera := Some Rejected\<rparr>" 10000] h2(2)
  have shown2: "warning (showWarning 10000 (message PermissionDenied)
                  (?a\<lparr>camera := Some Rejected\<rparr>)) = Some (message PermissionDenied)"
    by blast
  have h3: "mounted ?b \<and> media ?b = Pending"
    "11000 - lastWarningTime (?b\<lparr>media := Refused\<rparr>) \<le> 3000"
    unfolding run_to_blur by simp_all
  from denial_goes_through_throttle [of None ?b 11000] h3(1)
  have d3: "step (Deny 11000) ?b
              = showWarning 11000 (message PermissionDenied) (?b\<lparr>media := Refused\<rparr>)"
    by blast
  from denial_goes_through_throttle [of None "?b\<lparr>media := Refused\<rparr>" 11000] h3(2)
  have kept: "showWarning 11000 (message PermissionDenied) (?b\<lparr>media := Refused\<rparr>)
                = ?b\<lparr>media := Refused\<rparr>"
    by blast
  from d1 shown replaced d2 shown2 d3 kept show ?thesis by simp
qed

text \<open>
  C9: the execution the claim is about. The component mounts, unmounts and runs its
  cleanup while the permission request is pending, and the request is granted afterwards.
  The cleanup throws nothing and leaves no listener; but \<open>camera\<close> was still unset
  when it ran, so nothing stops the stream that arrives later. With
  \<open>videoRef.current\<close> cleared the stream is not even attached, and no later event
  releases it. Had the reference still been set, the \<open>Camera\<close> would be created and
  started after the cleanup.
\<close>

theorem late_grant_leaks_stream:
  "snd (snd (cleanup quiet (run [Mount, Detach] initial))) = None
   \<and> listeners (run [Mount, Detach, Cleanup, Grant] initial) = []
   \<and> camera (run [Mount, Detach, Cleanup, Grant] initial) = None
   \<and> media (run [Mount, Detach, Cleanup, Grant] initial) = Live
   \<and> (\<forall>es. media (run es (run [Mount, Detach, Cleanup, Grant] initial)) = Live)
   \<and> media (run [Mount, Cleanup, Grant, StartOk] initial) = Live
   \<and> camera (run [Mount, Cleanup, Grant, StartOk] initial) = Some Started"
proof -
  let ?s = "run [Mount, Detach, Cleanup, Grant] initial"
  have s: "?s = \<lparr>warning = None, lastWarningTime = 0, camera = None, media = Live,
      videoRef = False, mounted = False, listeners = [], inflight = 0\<rparr>"
    by (simp add: step_def initial_def mount_def initCamera_request_def addEventListener_def
        cleanup_quiet initCamera_permission_def initCamera_granted_def)
  have quietly: "snd (snd (cleanup quiet (run [Mount, Detach] initial))) = None"
    by (simp add: cleanup_quiet)
  have stays: "media (run es ?s) = Live" for es
    using run_without_camera [of ?s es] unfolding s by simp
  have attached: "media (run [Mount, Cleanup, Grant, StartOk] initial) = Live
      \<and> camera (run [Mount, Cleanup, Grant, StartOk] initial) = Some Started"
    by (simp add: step_def initial_def mount_def initCamera_request_def addEventListener_def
        cleanup_quiet initCamera_permission_def initCamera_start_def initCamera_granted_def
        initCamera_started_def)
  show ?thesis
    using quietly stays attached unfolding s by simp
qed

subsection \<open>The frame sampler\<close>

text \<open>
  C8, as stated, fails: the first test of the frame callback is \<open>videoRef.current\<close>,
  not readiness. A frame delivered between the clearing of the reference and the cleanup
  produces neither a \<open>CameraBlocked\<close> signal nor an inference, whatever the readiness
  of the video element: \<open>lastWarningTime\<close>, which the throttler would have set to the
  reading of that signal, is untouched, and no inference is in flight.
\<close>

theorem detached_frame_counterexample:
  "warning (run [Mount, Grant, StartOk, Detach, Frame 10000 0 0] initial) = None
   \<and> inflight (run [Mount, Grant, StartOk, Detach, Frame 10000 0 0] initial) = 0
   \<and> warning (run [Mount, Grant, StartOk, Detach, Frame 10000 4 320] initial) = None
   \<and> inflight (run [Mount, Grant, StartOk, Detach, Frame 10000 4 320] initial) = 0
   \<and> warning (showWarning 10000 (message CameraBlocked)
        (run [Mount, Grant, StartOk, Detach] initial)) = Some (message CameraBlocked)
   \<and> lastWarningTime (run [Mount, Grant, StartOk, Detach, Frame 10000 0 0] initial) = 0
   \<and> lastWarningTime (showWarning 10000 (message CameraBlocked)
        (run [Mount, Grant, StartOk, Detach] initial)) = 10000
   \<and> camera (run [Mount, Grant, StartOk, Detach] initial) = Some Started"
  by (simp add: step_def initial_def mount_def initCamera_request_def addEventListener_def
        initCamera_permission_def initCamera_start_def initCamera_granted_def
        initCamera_started_def onFrame_def showWarning_def
        del: message.simps)

text \<open>
  C8, amended. For every delivered frame for which \<open>videoRef.current\<close> is set, the
  callback checks readiness (\<open>readyState\<close> at least 2 and \<open>videoWidth\<close> above 0):
  if the check fails it passes \<open>CameraBlocked\<close> to the throttler and starts no
  inference; if it passes it starts exactly one inference and passes no signal. When
  \<open>videoRef.current\<close> is not set the frame is skipped: no signal, no inference.
\<close>

theorem onFrame_readiness:
  "(videoRef s \<and> \<not> (readyState \<ge> 2 \<and> videoWidth > 0) \<longrightarrow>
      onFrame now readyState videoWidth s = showWarning now (message CameraBlocked) s
      \<and> inflight (onFrame now readyState videoWidth s) = inflight s)
   \<and> (videoRef s \<and> readyState \<ge> 2 \<and> videoWidth > 0 \<longrightarrow>
      onFrame now readyState videoWidth s = s\<lparr>inflight := inflight s + 1\<rparr>)
   \<and> (\<not> videoRef s \<longrightarrow> onFrame now readyState videoWidth s = s)"
  by (auto simp add: onFrame_def faceDetector_send_def showWarning_def simp del: message.simps)

theorem onFrame_readiness_witness:
  "onFrame 10000 1 320 initial = showWarning 10000 (message CameraBlocked) initial
   \<and> onFrame 10000 4 0 initial = showWarning 10000 (message CameraBlocked) initial
   \<and> onFrame 10000 4 320 initial = initial\<lparr>inflight := 1\<rparr>
   \<and> onFrame 10000 4 320 (initial\<lparr>videoRef := False\<rparr>) = initial\<lparr>videoRef := False\<rparr>"
proof -
  have v: "videoRef initial" "\<not> videoRef (initial\<lparr>videoRef := False\<rparr>)" "inflight initial = 0"
    by (simp_all add: initial_def)
  from onFrame_readiness [of initial 1 320 10000] v
  have a: "onFrame 10000 1 320 initial = showWarning 10000 (message CameraBlocked) initial"
    by simp
  from onFrame_readiness [of initial 4 0 10000] v
  have b: "onFrame 10000 4 0 initial = showWarning 10000 (message CameraBlocked) initial"
    by simp
  from onFrame_readiness [of initial 4 320 10000] v
  have c: "onFrame 10000 4 320 initial = initial\<lparr>inflight := 1\<rparr>"
    by simp
  from onFrame_readiness [of "initial\<lparr>videoRef := False\<rparr>" 4 320 10000] v
  have d: "onFrame 10000 4 320 (initial\<lparr>videoRef := False\<rparr>) = initial\<lparr>videoRef := False\<rparr>"
    by blast
  from a b c d show ?thesis by blast
qed

end
